theory Spec2Isabelle
  imports Complex_Main "HOL-Library.Log_Nat"
begin

section \<open>que.js: a viewport watcher\<close>

text \<open>
  \<^verbatim>\<open>que(selector, opts)\<close> resolves one element, registers its \<^verbatim>\<open>check\<close> closure for
  the window's scroll and resize events, runs \<^verbatim>\<open>check\<close> once and returns a handle
  with \<^verbatim>\<open>detach\<close>. The closure owns the merged options, the element and the variable
  \<^verbatim>\<open>activated\<close>; everything else it touches belongs to the page.

  The embedding passes state explicitly. JavaScript numbers are IEEE 754 doubles, with
  the rounding of their subtraction written out. Class names are taken to be valid tokens
  of a \<^verbatim>\<open>DOMTokenList\<close> and selectors to be well-formed, so that the host's own
  exceptions are outside the model. A callback is observed through the log of its
  invocations; it is not given the power to change the page itself.
\<close>

subsection \<open>Numbers\<close>

text \<open>
  A JavaScript number is a double: a finite value, one of the two infinities, or
  \<^verbatim>\<open>NaN\<close>. A finite double is a real on the binary64 grid: 53 significant bits, the
  unit in the last place never below \<open>2 ^ (- 1074)\<close>, magnitude below \<open>2 ^ 1024\<close>.
  The two zeros are one value here: \<^verbatim>\<open>-\<close>, \<^verbatim>\<open><\<close>, \<^verbatim>\<open>>\<close> and \<^verbatim>\<open>||\<close>, the only
  operations of \<^verbatim>\<open>check\<close> on numbers, do not tell them apart in what \<^verbatim>\<open>check\<close>
  goes on to do.
\<close>

datatype number = Finite real | PosInfinity | NegInfinity | NaN

definition pow2 :: "int \<Rightarrow> real" where
  "pow2 e = (if 0 \<le> e then 2 ^ nat e else 1 / 2 ^ nat (- e))"

text \<open>For \<open>x > 0\<close>, the exponent \<open>k\<close> with \<open>2 ^ k \<le> x < 2 ^ (k + 1)\<close>.\<close>

definition floor_log2 :: "real \<Rightarrow> int" where
  "floor_log2 x = (if 1 \<le> x then bitlen \<lfloor>x\<rfloor> - 1 else - bitlen (\<lceil>1 / x\<rceil> - 1))"

text \<open>The nearest integer, a tie going to the even one.\<close>

definition round_half_even :: "real \<Rightarrow> int" where
  "round_half_even x =
     (let n = \<lfloor>x\<rfloor>; f = x - of_int n in
      if f < 1 / 2 then n else if 1 / 2 < f then n + 1 else if even n then n else n + 1)"

text \<open>
  The double that an exact result \<open>x\<close> is rounded to (round to nearest, ties to even):
  \<open>x\<close> is rounded to a multiple of the unit in the last place of its binade, and a result
  of magnitude \<open>2 ^ 1024\<close> or more is an infinity.
\<close>

definition round_double :: "real \<Rightarrow> number" where
  "round_double x =
     (if x = 0 then Finite 0
      else
        let e = max (floor_log2 \<bar>x\<bar>) (- 1022) - 52;
            r = of_int (round_half_even (x / pow2 e)) * pow2 e
        in if r = 0 then Finite 0
           else if 1024 \<le> floor_log2 \<bar>r\<bar> then (if 0 < r then PosInfinity else NegInfinity)
           else Finite r)"

text \<open>The operators \<^verbatim>\<open>-\<close>, \<^verbatim>\<open><\<close>, \<^verbatim>\<open><=\<close>, \<^verbatim>\<open>>\<close> and \<^verbatim>\<open>>=\<close> on numbers.\<close>

fun js_sub :: "number \<Rightarrow> number \<Rightarrow> number" where
  "js_sub NaN y = NaN"
| "js_sub x NaN = NaN"
| "js_sub PosInfinity PosInfinity = NaN"
| "js_sub NegInfinity NegInfinity = NaN"
| "js_sub PosInfinity y = PosInfinity"
| "js_sub NegInfinity y = NegInfinity"
| "js_sub x PosInfinity = NegInfinity"
| "js_sub x NegInfinity = PosInfinity"
| "js_sub (Finite a) (Finite b) = round_double (a - b)"

fun js_lt :: "number \<Rightarrow> number \<Rightarrow> bool" where
  "js_lt (Finite a) (Finite b) = (a < b)"
| "js_lt (Finite a) PosInfinity = True"
| "js_lt NegInfinity (Finite b) = True"
| "js_lt NegInfinity PosInfinity = True"
| "js_lt x y = False"

fun js_le :: "number \<Rightarrow> number \<Rightarrow> bool" where
  "js_le (Finite a) (Finite b) = (a \<le> b)"
| "js_le (Finite a) PosInfinity = True"
| "js_le NegInfinity (Finite b) = True"
| "js_le NegInfinity PosInfinity = True"
| "js_le PosInfinity PosInfinity = True"
| "js_le NegInfinity NegInfinity = True"
| "js_le x y = False"

definition js_gt :: "number \<Rightarrow> number \<Rightarrow> bool" where
  [simp]: "js_gt x y = js_lt y x"

definition js_ge :: "number \<Rightarrow> number \<Rightarrow> bool" where
  [simp]: "js_ge x y = js_le y x"

text \<open>The numbers that \<^verbatim>\<open>||\<close> skips: zero and \<^verbatim>\<open>NaN\<close>.\<close>

fun falsy :: "number \<Rightarrow> bool" where
  "falsy (Finite a) = (a = 0)"
| "falsy NaN = True"
| "falsy PosInfinity = False"
| "falsy NegInfinity = False"

text \<open>The value of a decimal literal: the double nearest to it.\<close>

definition literal :: "real \<Rightarrow> number" where
  "literal x = round_double x"

subsection \<open>Values of the host\<close>

type_synonym element = nat

datatype action = Add | Remove

text \<open>What \<^verbatim>\<open>typeof options.callback === 'function'\<close> tells apart.\<close>

datatype jsvalue = Null | Function | Other

text \<open>
  The options after \<^verbatim>\<open>Object.assign\<close>; \<^verbatim>\<open>classToRemove\<close> is a string or
  \<^verbatim>\<open>null\<close>.
\<close>

record options =
  classToAdd :: string
  classToRemove :: "string option"
  offset :: number
  once :: bool
  repeat :: bool
  callback :: jsvalue

text \<open>The caller's \<^verbatim>\<open>opts\<close> object: every key may be missing.\<close>

record opts =
  opts_classToAdd :: "string option"
  opts_classToRemove :: "string option option"
  opts_offset :: "number option"
  opts_once :: "bool option"
  opts_repeat :: "bool option"
  opts_callback :: "jsvalue option"

definition defaults :: options where
  "defaults = \<lparr>classToAdd = ''que'', classToRemove = None, offset = Finite 0,
     once = True, repeat = False, callback = Null\<rparr>"

text \<open>The empty object of \<^verbatim>\<open>opts || {}\<close>.\<close>

definition no_opts :: opts where
  "no_opts = \<lparr>opts_classToAdd = None, opts_classToRemove = None, opts_offset = None,
     opts_once = None, opts_repeat = None, opts_callback = None\<rparr>"

text \<open>\<^verbatim>\<open>Object.assign(target, source)\<close>: the keys of the source overwrite the target's.\<close>

definition assign :: "options \<Rightarrow> opts \<Rightarrow> options" where
  "assign d s =
     \<lparr>classToAdd = (case opts_classToAdd s of None \<Rightarrow> classToAdd d | Some v \<Rightarrow> v),
      classToRemove = (case opts_classToRemove s of None \<Rightarrow> classToRemove d | Some v \<Rightarrow> v),
      offset = (case opts_offset s of None \<Rightarrow> offset d | Some v \<Rightarrow> v),
      once = (case opts_once s of None \<Rightarrow> once d | Some v \<Rightarrow> v),
      repeat = (case opts_repeat s of None \<Rightarrow> repeat d | Some v \<Rightarrow> v),
      callback = (case opts_callback s of None \<Rightarrow> callback d | Some v \<Rightarrow> v)\<rparr>"

text \<open>
  What one run of \<^verbatim>\<open>check\<close> reads from the host: the element's bounding rectangle,
  \<^verbatim>\<open>window.innerHeight\<close> and \<^verbatim>\<open>document.documentElement.clientHeight\<close>.
\<close>

record host =
  rect_top :: number
  rect_bottom :: number
  innerHeight :: number
  clientHeight :: number

text \<open>
  The page: the document's \<^verbatim>\<open>querySelector\<close>, the class list of every element (an
  ordered set of tokens), whether \<^verbatim>\<open>check\<close> is registered for the window's scroll
  and resize events, and the invocations of the callback so far.
\<close>

record page =
  querySelector :: "string \<Rightarrow> element option"
  classList :: "element \<Rightarrow> string list"
  scroll :: bool
  resize :: bool
  calls :: "(element \<times> action) list"

text \<open>The closure created by one call of \<^verbatim>\<open>que\<close>.\<close>

record watcher =
  options :: options
  el :: element
  activated :: bool

type_synonym state = "watcher \<times> page"

subsection \<open>The class list and the callback\<close>

definition classList_add :: "string \<Rightarrow> string list \<Rightarrow> string list" where
  "classList_add c cs = (if c \<in> set cs then cs else cs @ [c])"

definition classList_remove :: "string \<Rightarrow> string list \<Rightarrow> string list" where
  "classList_remove c cs = removeAll c cs"

definition add_class :: "element \<Rightarrow> string \<Rightarrow> page \<Rightarrow> page" where
  "add_class e c p = p\<lparr>classList := (classList p)(e := classList_add c (classList p e))\<rparr>"

definition remove_class :: "element \<Rightarrow> string \<Rightarrow> page \<Rightarrow> page" where
  "remove_class e c p = p\<lparr>classList := (classList p)(e := classList_remove c (classList p e))\<rparr>"

text \<open>
  \<^verbatim>\<open>if (options.classToRemove)\<close>: \<^verbatim>\<open>null\<close> and the empty string are falsy.
\<close>

definition truthy :: "string option \<Rightarrow> bool" where
  "truthy v = (case v of None \<Rightarrow> False | Some c \<Rightarrow> c \<noteq> [])"

text \<open>\<^verbatim>\<open>if (typeof options.callback === 'function') options.callback(el, a)\<close>\<close>

definition invoke :: "options \<Rightarrow> element \<Rightarrow> action \<Rightarrow> page \<Rightarrow> page" where
  "invoke opt e a p = (if callback opt = Function then p\<lparr>calls := calls p @ [(e, a)]\<rparr> else p)"

subsection \<open>The closure's functions\<close>

definition activate :: "state \<Rightarrow> state" where
  "activate s =
     (let w = fst s; opt = options w;
          p1 = add_class (el w) (classToAdd opt) (snd s);
          p2 = (if truthy (classToRemove opt)
                then remove_class (el w) (the (classToRemove opt)) p1 else p1);
          p3 = invoke opt (el w) Add p2
      in (w\<lparr>activated := True\<rparr>, p3))"

definition deactivate :: "state \<Rightarrow> state" where
  "deactivate s =
     (let w = fst s; opt = options w;
          p1 = remove_class (el w) (classToAdd opt) (snd s);
          p2 = (if truthy (classToRemove opt)
                then add_class (el w) (the (classToRemove opt)) p1 else p1);
          p3 = invoke opt (el w) Remove p2
      in (w\<lparr>activated := False\<rparr>, p3))"

definition detach :: "state \<Rightarrow> state" where
  "detach s = (fst s, (snd s)\<lparr>scroll := False, resize := False\<rparr>)"

text \<open>\<^verbatim>\<open>window.innerHeight || document.documentElement.clientHeight\<close>\<close>

definition vh :: "host \<Rightarrow> number" where
  "vh h = (if falsy (innerHeight h) then clientHeight h else innerHeight h)"

text \<open>\<^verbatim>\<open>rect.top < vh - options.offset && rect.bottom > options.offset\<close>\<close>

definition inView :: "options \<Rightarrow> host \<Rightarrow> bool" where
  "inView opt h =
     (js_lt (rect_top h) (js_sub (vh h) (offset opt)) \<and> js_gt (rect_bottom h) (offset opt))"

definition check :: "host \<Rightarrow> state \<Rightarrow> state" where
  "check h s =
     (let w = fst s; opt = options w in
      if inView opt h \<and> (\<not> activated w \<or> repeat opt) then
        (let s' = activate s in if once opt \<and> \<not> repeat opt then detach s' else s')
      else if \<not> inView opt h \<and> activated w \<and> repeat opt then deactivate s
      else s)"

text \<open>
  \<^verbatim>\<open>que\<close> returns the handle, if any, and the page it leaves. The handle is the closure:
  its only method is \<^verbatim>\<open>detach\<close>.
\<close>

definition que :: "string \<Rightarrow> opts option \<Rightarrow> host \<Rightarrow> page \<Rightarrow> watcher option \<times> page" where
  "que selector given h p =
     (let opt = assign defaults (case given of None \<Rightarrow> no_opts | Some g \<Rightarrow> g) in
      case querySelector p selector of
        None \<Rightarrow> (None, p)
      | Some e \<Rightarrow>
          (let s = check h (\<lparr>options = opt, el = e, activated = False\<rparr>,
                            p\<lparr>scroll := True, resize := True\<rparr>)
           in (Some (fst s), snd s)))"

subsection \<open>The event loop\<close>

text \<open>
  After \<^verbatim>\<open>que\<close> has returned, the window delivers scroll and resize events, each to
  \<^verbatim>\<open>check\<close> if it is still registered for that event, and the caller may call the
  handle's \<^verbatim>\<open>detach\<close>. Each event carries what \<^verbatim>\<open>check\<close> would read from the host.
\<close>

datatype event = Scroll host | Resize host | Detach

fun step :: "event \<Rightarrow> state \<Rightarrow> state" where
  "step (Scroll h) s = (if scroll (snd s) then check h s else s)"
| "step (Resize h) s = (if resize (snd s) then check h s else s)"
| "step Detach s = detach s"

fun run :: "event list \<Rightarrow> state \<Rightarrow> state" where
  "run [] s = s"
| "run (ev # evs) s = run evs (step ev s)"

text \<open>A sequence of runs of \<^verbatim>\<open>check\<close>, one per reading of the host.\<close>

fun checks :: "host list \<Rightarrow> state \<Rightarrow> state" where
  "checks [] s = s"
| "checks (h # hs) s = checks hs (check h s)"

subsection \<open>The branch taken by a check\<close>

text \<open>
  \<^verbatim>\<open>check\<close> has three branches: it activates, it deactivates, or it does nothing.
  \<open>transition\<close> repeats the two guards of \<^verbatim>\<open>check\<close> and names the branch, and
  \<open>transitions\<close> lists the branches taken along a sequence of checks. They are
  observations of the run, not part of the program; \<open>check_transition\<close> below shows that
  they describe what \<^verbatim>\<open>check\<close> does.
\<close>

definition transition :: "host \<Rightarrow> watcher \<Rightarrow> action option" where
  "transition h w =
     (let opt = options w in
      if inView opt h \<and> (\<not> activated w \<or> repeat opt) then Some Add
      else if \<not> inView opt h \<and> activated w \<and> repeat opt then Some Remove
      else None)"

fun transitions :: "host list \<Rightarrow> state \<Rightarrow> action list" where
  "transitions [] s = []"
| "transitions (h # hs) s =
     (case transition h (fst s) of None \<Rightarrow> [] | Some a \<Rightarrow> [a]) @ transitions hs (check h s)"

text \<open>
  Readings that alternate between in view and out of view, the first being in view exactly
  when \<open>b\<close> holds; \<open>n\<close> alternating runs of \<^verbatim>\<open>activate\<close> and \<^verbatim>\<open>deactivate\<close>, and
  the actions they report.
\<close>

fun alternates :: "options \<Rightarrow> bool \<Rightarrow> host list \<Rightarrow> bool" where
  "alternates opt b [] = True"
| "alternates opt b (h # hs) = (inView opt h = b \<and> alternates opt (\<not> b) hs)"

fun toggles :: "bool \<Rightarrow> nat \<Rightarrow> state \<Rightarrow> state" where
  "toggles b 0 s = s"
| "toggles b (Suc n) s = toggles (\<not> b) n (if b then activate s else deactivate s)"

fun actions :: "bool \<Rightarrow> nat \<Rightarrow> action list" where
  "actions b 0 = []"
| "actions b (Suc n) = (if b then Add else Remove) # actions (\<not> b) n"

subsection \<open>Sample inputs\<close>

text \<open>
  A page whose only element, number 0, matches \<^verbatim>\<open>.sect-1\<close> and carries no class, the
  same page with the classes \<^verbatim>\<open>que\<close> and \<^verbatim>\<open>out\<close> already in the markup, and three
  readings of the host for a viewport 800 pixels high: the element in view, above the
  viewport and below it. A fourth reading, for a viewport 600 pixels high, has the
  rectangle's top at the literal \<^verbatim>\<open>599.9\<close>.
\<close>

definition page0 :: page where
  "page0 = \<lparr>querySelector = (\<lambda>sel. if sel = ''.sect-1'' then Some 0 else None),
     classList = (\<lambda>e. []), scroll = False, resize = False, calls = []\<rparr>"

definition page_both :: page where
  "page_both = \<lparr>querySelector = (\<lambda>sel. if sel = ''.sect-1'' then Some 0 else None),
     classList = (\<lambda>e. [''que'', ''out'']), scroll = False, resize = False, calls = []\<rparr>"

definition visible :: host where
  "visible = \<lparr>rect_top = Finite 700, rect_bottom = Finite 750,
     innerHeight = Finite 800, clientHeight = Finite 800\<rparr>"

definition above :: host where
  "above = \<lparr>rect_top = Finite (- 300), rect_bottom = Finite (- 100),
     innerHeight = Finite 800, clientHeight = Finite 800\<rparr>"

definition below :: host where
  "below = \<lparr>rect_top = Finite 900, rect_bottom = Finite 1100,
     innerHeight = Finite 800, clientHeight = Finite 800\<rparr>"

definition fractional :: host where
  "fractional = \<lparr>rect_top = literal (5999 / 10), rect_bottom = Finite 650,
     innerHeight = Finite 600, clientHeight = Finite 600\<rparr>"

text \<open>
  The closure on element 0 as \<^verbatim>\<open>que\<close> creates it, before its first check: not
  activated, both listeners registered.
\<close>

definition fresh :: "options \<Rightarrow> state" where
  "fresh opt = (\<lparr>options = opt, el = 0, activated = False\<rparr>,
     page0\<lparr>scroll := True, resize := True\<rparr>)"

lemmas sample_defs = fresh_def defaults_def visible_def above_def below_def page0_def
  no_opts_def

lemmas code_defs = que_def assign_def check_def inView_def vh_def Let_def
  activate_def deactivate_def detach_def add_class_def remove_class_def invoke_def truthy_def
  classList_add_def classList_remove_def

section \<open>Rounding\<close>

text \<open>
  The subtractions of the sample readings are exact; that of the fractional one is not: the
  doubles of \<^verbatim>\<open>0.1\<close> and \<^verbatim>\<open>599.9\<close> are not the decimals, and \<^verbatim>\<open>600 - 0.1\<close> rounds to
  the double of \<^verbatim>\<open>599.9\<close>, although the exact difference is larger. At the top of the
  integers a sum that needs a 54th bit goes to the even neighbour.
\<close>

lemma round_800 [simp]: "round_double 800 = Finite 800"
  by code_simp

lemma round_750 [simp]: "round_double 750 = Finite 750"
  by code_simp

lemma literal_tenth: "literal (1 / 10) = Finite (3602879701896397 / 36028797018963968)"
  by code_simp

lemma literal_5999_tenths: "literal (5999 / 10) = Finite (5276776204022579 / 8796093022208)"
  by code_simp

lemma sub_600_tenth: "js_sub (Finite 600) (literal (1 / 10)) = literal (5999 / 10)"
  by code_simp

lemma sub_exact_600_tenth:
  "(5276776204022579 / 8796093022208 :: real) < 600 - 3602879701896397 / 36028797018963968"
  by simp

lemma sub_ties_to_even: "js_sub (Finite (2 ^ 53)) (Finite (- 1)) = Finite (2 ^ 53)"
  by code_simp

lemma js_le_not_lt: "js_le x y \<Longrightarrow> \<not> js_lt y x"
  by (cases x; cases y) simp_all

section \<open>Frame lemmas\<close>

lemma activate_fst [simp]: "fst (activate s) = (fst s)\<lparr>activated := True\<rparr>"
  by (simp add: activate_def Let_def)

lemma deactivate_fst [simp]: "fst (deactivate s) = (fst s)\<lparr>activated := False\<rparr>"
  by (simp add: deactivate_def Let_def)

lemma detach_fst [simp]: "fst (detach s) = fst s"
  by (simp add: detach_def)

lemma check_options [simp]: "options (fst (check h s)) = options (fst s)"
  by (simp add: check_def Let_def)

lemma check_el [simp]: "el (fst (check h s)) = el (fst s)"
  by (simp add: check_def Let_def)

lemma activate_listeners [simp]:
  "scroll (snd (activate s)) = scroll (snd s)" "resize (snd (activate s)) = resize (snd s)"
  by (simp_all add: activate_def Let_def add_class_def remove_class_def invoke_def)

lemma deactivate_listeners [simp]:
  "scroll (snd (deactivate s)) = scroll (snd s)" "resize (snd (deactivate s)) = resize (snd s)"
  by (simp_all add: deactivate_def Let_def add_class_def remove_class_def invoke_def)

lemma detach_listeners [simp]:
  "\<not> scroll (snd (detach s))" "\<not> resize (snd (detach s))"
  by (simp_all add: detach_def)

lemma detach_detached: "\<not> scroll (snd s) \<Longrightarrow> \<not> resize (snd s) \<Longrightarrow> detach s = s"
  by (cases s) (simp add: detach_def)

lemma step_detached: "\<not> scroll (snd s) \<Longrightarrow> \<not> resize (snd s) \<Longrightarrow> step ev s = s"
  by (cases ev) (simp_all add: detach_detached)

lemma run_detached: "\<not> scroll (snd s) \<Longrightarrow> \<not> resize (snd s) \<Longrightarrow> run evs s = s"
  by (induction evs) (simp_all add: step_detached)

lemma check_settled: "\<not> repeat (options (fst s)) \<Longrightarrow> activated (fst s) \<Longrightarrow> check h s = s"
  by (simp add: check_def Let_def)

lemma check_transition:
  "check h s =
     (case transition h (fst s) of
        None \<Rightarrow> s
      | Some Add \<Rightarrow>
          if once (options (fst s)) \<and> \<not> repeat (options (fst s)) then detach (activate s)
          else activate s
      | Some Remove \<Rightarrow> deactivate s)"
  by (auto simp: check_def transition_def Let_def)

lemma activate_calls:
  "calls (snd (activate s)) =
     calls (snd s) @ (if callback (options (fst s)) = Function then [(el (fst s), Add)] else [])"
  by (simp add: activate_def Let_def add_class_def remove_class_def invoke_def)

lemma deactivate_calls:
  "calls (snd (deactivate s)) =
     calls (snd s) @ (if callback (options (fst s)) = Function then [(el (fst s), Remove)] else [])"
  by (simp add: deactivate_def Let_def add_class_def remove_class_def invoke_def)

lemma detach_calls [simp]: "calls (snd (detach s)) = calls (snd s)"
  by (simp add: detach_def)

lemma check_calls:
  "calls (snd (check h s)) =
     calls (snd s) @ (if callback (options (fst s)) = Function
       then map (Pair (el (fst s))) (case transition h (fst s) of None \<Rightarrow> [] | Some a \<Rightarrow> [a])
       else [])"
  by (simp add: check_transition activate_calls deactivate_calls
      split: option.split action.split)

lemma checks_options [simp]: "options (fst (checks hs s)) = options (fst s)"
  by (induction hs arbitrary: s) simp_all

lemma checks_el [simp]: "el (fst (checks hs s)) = el (fst s)"
  by (induction hs arbitrary: s) simp_all

lemma checks_calls:
  "calls (snd (checks hs s)) =
     calls (snd s) @ (if callback (options (fst s)) = Function
       then map (Pair (el (fst s))) (transitions hs s) else [])"
  by (induction hs arbitrary: s) (simp_all add: check_calls)

lemma transition_activated:
  "activated (fst (check h s)) =
     (case transition h (fst s) of None \<Rightarrow> activated (fst s) | Some Add \<Rightarrow> True | Some Remove \<Rightarrow> False)"
  by (simp add: check_transition split: option.split action.split)

lemma transitions_first:
  "\<not> activated (fst s) \<Longrightarrow> transitions hs s = [] \<or> hd (transitions hs s) = Add"
proof (induction hs arbitrary: s)
  case Nil
  then show ?case by simp
next
  case (Cons h hs)
  show ?case
  proof (cases "transition h (fst s)")
    case None
    with Cons.prems have "check h s = s"
      by (simp add: check_transition)
    with None Cons show ?thesis by simp
  next
    case (Some a)
    with Cons.prems have "a = Add"
      by (auto simp: transition_def Let_def split: if_splits)
    with Some show ?thesis by simp
  qed
qed

lemma transitions_settled:
  "\<not> repeat (options (fst s)) \<Longrightarrow> activated (fst s) \<Longrightarrow> transitions hs s = []"
  by (induction hs arbitrary: s) (simp_all add: check_settled, simp add: transition_def)

lemma transitions_no_repeat:
  "\<not> repeat (options (fst s)) \<Longrightarrow>
     transitions hs s = [] \<or> (\<not> activated (fst s) \<and> transitions hs s = [Add])"
proof (induction hs arbitrary: s)
  case Nil
  then show ?case by simp
next
  case (Cons h hs)
  show ?case
  proof (cases "transition h (fst s)")
    case None
    with Cons.prems have same: "check h s = s"
      by (simp add: check_transition)
    from Cons.IH [of s] Cons.prems None same show ?thesis by simp
  next
    case (Some a)
    with Cons.prems have a: "a = Add" and na: "\<not> activated (fst s)"
      by (auto simp: transition_def Let_def split: if_splits)
    from Some a have "activated (fst (check h s))"
      by (simp add: transition_activated)
    with Cons.prems have "transitions hs (check h s) = []"
      by (simp add: transitions_settled)
    with Some a na show ?thesis by simp
  qed
qed


lemma checks_settled: "\<not> repeat (options (fst s)) \<Longrightarrow> activated (fst s) \<Longrightarrow> checks hs s = s"
  by (induction hs) (simp_all add: check_settled)

lemma step_options [simp]: "options (fst (step ev s)) = options (fst s)"
  by (cases ev) simp_all

lemma check_once:
  assumes "once (options (fst s))" "\<not> repeat (options (fst s))"
  shows "activated (fst (check h s)) \<Longrightarrow> \<not> activated (fst s) \<Longrightarrow>
           \<not> scroll (snd (check h s)) \<and> \<not> resize (snd (check h s))"
  using assms by (simp add: check_def Let_def split: if_splits)

lemma step_once:
  assumes "once (options (fst s))" "\<not> repeat (options (fst s))"
    and "activated (fst s) \<longrightarrow> \<not> scroll (snd s) \<and> \<not> resize (snd s)"
  shows "activated (fst (step ev s)) \<longrightarrow> \<not> scroll (snd (step ev s)) \<and> \<not> resize (snd (step ev s))"
proof (cases "activated (fst s)")
  case True
  with assms(3) have "step ev s = s"
    by (simp add: step_detached)
  with assms(3) show ?thesis by simp
next
  case False
  show ?thesis
  proof (cases ev)
    case (Scroll h)
    with False assms(1,2) show ?thesis
      using check_once [of s h] by auto
  next
    case (Resize h)
    with False assms(1,2) show ?thesis
      using check_once [of s h] by auto
  next
    case Detach
    then show ?thesis by simp
  qed
qed

lemma run_once:
  "once (options (fst s)) \<Longrightarrow> \<not> repeat (options (fst s)) \<Longrightarrow>
   activated (fst s) \<longrightarrow> \<not> scroll (snd s) \<and> \<not> resize (snd s) \<Longrightarrow>
   activated (fst (run evs s)) \<longrightarrow> \<not> scroll (snd (run evs s)) \<and> \<not> resize (snd (run evs s))"
proof (induction evs arbitrary: s)
  case Nil
  then show ?case by simp
next
  case (Cons ev evs)
  from Cons.prems have "activated (fst (step ev s)) \<longrightarrow>
      \<not> scroll (snd (step ev s)) \<and> \<not> resize (snd (step ev s))"
    by (rule step_once)
  with Cons.prems(1,2) show ?case
    using Cons.IH [of "step ev s"] by simp
qed

lemma que_Some:
  "que selector given h p = (Some w, p') \<Longrightarrow>
     \<exists>s0. (w, p') = check h s0 \<and> \<not> activated (fst s0)
       \<and> snd s0 = p\<lparr>scroll := True, resize := True\<rparr>
       \<and> querySelector p selector = Some (el (fst s0))"
  by (auto simp: que_def Let_def split: option.splits)

section \<open>The class list\<close>

lemma set_classList_add [simp]: "set (classList_add c cs) = insert c (set cs)"
  by (auto simp: classList_add_def)

lemma set_classList_remove [simp]: "set (classList_remove c cs) = set cs - {c}"
  by (simp add: classList_remove_def)

lemma activate_classes:
  "set (classList (snd (activate s)) (el (fst s))) =
     (if truthy (classToRemove (options (fst s)))
      then insert (classToAdd (options (fst s))) (set (classList (snd s) (el (fst s))))
             - {the (classToRemove (options (fst s)))}
      else insert (classToAdd (options (fst s))) (set (classList (snd s) (el (fst s)))))"
  by (simp add: activate_def Let_def add_class_def remove_class_def invoke_def)

lemma deactivate_classes:
  "set (classList (snd (deactivate s)) (el (fst s))) =
     (if truthy (classToRemove (options (fst s)))
      then insert (the (classToRemove (options (fst s))))
             (set (classList (snd s) (el (fst s))) - {classToAdd (options (fst s))})
      else set (classList (snd s) (el (fst s))) - {classToAdd (options (fst s))})"
  by (simp add: deactivate_def Let_def add_class_def remove_class_def invoke_def)

lemma detach_classes [simp]: "classList (snd (detach s)) = classList (snd s)"
  by (simp add: detach_def)

lemma truthy_the: "truthy v \<Longrightarrow> v = Some (the v)"
  by (cases v) (simp_all add: truthy_def)

section \<open>The in-view predicate\<close>

lemma check_no_transition:
  "\<not> inView (options (fst s)) h \<Longrightarrow> \<not> activated (fst s) \<Longrightarrow> check h s = s"
  by (simp add: check_def Let_def)

text \<open>
  C1. The predicate computed by \<^verbatim>\<open>check\<close> is \<open>top < vh - offset \<and> bottom > offset\<close>,
  in the arithmetic of doubles, and \<^verbatim>\<open>check\<close> branches on it and on nothing else of
  the reading. Hence an element wholly above the shrunk viewport (\<open>bottom \<le> offset\<close>) or
  wholly below it (\<open>top \<ge> vh - offset\<close>) is not in view, and \<^verbatim>\<open>check\<close> on a watcher that
  has not been activated changes nothing. In the scenario with offset 50, viewport height
  800 and the rectangle from 700 to 750, the difference is 750, and a watcher with a
  callback and otherwise default options adds the class \<^verbatim>\<open>que\<close>, calls the callback once
  with \<open>Add\<close> and ends with both listeners removed.
\<close>

theorem check_inView:
  "inView (options w) h
     = (js_lt (rect_top h) (js_sub (vh h) (offset (options w)))
        \<and> js_gt (rect_bottom h) (offset (options w)))
   \<and> check h (w, p)
     = (if (js_lt (rect_top h) (js_sub (vh h) (offset (options w)))
            \<and> js_gt (rect_bottom h) (offset (options w)))
           \<and> (\<not> activated w \<or> repeat (options w))
        then (if once (options w) \<and> \<not> repeat (options w)
              then detach (activate (w, p)) else activate (w, p))
        else if \<not> (js_lt (rect_top h) (js_sub (vh h) (offset (options w)))
                   \<and> js_gt (rect_bottom h) (offset (options w)))
                \<and> activated w \<and> repeat (options w)
        then deactivate (w, p)
        else (w, p))
   \<and> (js_le (rect_bottom h) (offset (options w))
        \<or> js_ge (rect_top h) (js_sub (vh h) (offset (options w)))
        \<longrightarrow> \<not> inView (options w) h \<and> (\<not> activated w \<longrightarrow> check h (w, p) = (w, p)))
   \<and> (querySelector p ''.sect-1'' = Some e \<longrightarrow>
        vh \<lparr>rect_top = Finite 700, rect_bottom = Finite 750, innerHeight = Finite 800,
            clientHeight = c\<rparr> = Finite 800
      \<and> js_sub (Finite 800) (Finite 50) = Finite 750
      \<and> inView (defaults\<lparr>offset := Finite 50, callback := Function\<rparr>)
          \<lparr>rect_top = Finite 700, rect_bottom = Finite 750, innerHeight = Finite 800,
            clientHeight = c\<rparr>
      \<and> que ''.sect-1''
          (Some (no_opts\<lparr>opts_offset := Some (Finite 50), opts_callback := Some Function\<rparr>))
          \<lparr>rect_top = Finite 700, rect_bottom = Finite 750, innerHeight = Finite 800,
            clientHeight = c\<rparr> p
        = (Some \<lparr>options = defaults\<lparr>offset := Finite 50, callback := Function\<rparr>, el = e,
                 activated = True\<rparr>,
           p\<lparr>classList := (classList p)(e := classList_add ''que'' (classList p e)),
             scroll := False, resize := False,
             calls := calls p @ [(e, Add)]\<rparr>)
      \<and> ''que'' \<in> set (classList_add ''que'' (classList p e)))"
proof (intro conjI impI)
  show "inView (options w) h
     = (js_lt (rect_top h) (js_sub (vh h) (offset (options w)))
        \<and> js_gt (rect_bottom h) (offset (options w)))"
    by (simp add: inView_def)
next
  show "check h (w, p)
     = (if (js_lt (rect_top h) (js_sub (vh h) (offset (options w)))
            \<and> js_gt (rect_bottom h) (offset (options w)))
           \<and> (\<not> activated w \<or> repeat (options w))
        then (if once (options w) \<and> \<not> repeat (options w)
              then detach (activate (w, p)) else activate (w, p))
        else if \<not> (js_lt (rect_top h) (js_sub (vh h) (offset (options w)))
                   \<and> js_gt (rect_bottom h) (offset (options w)))
                \<and> activated w \<and> repeat (options w)
        then deactivate (w, p)
        else (w, p))"
    by (auto simp: check_def inView_def Let_def)
next
  assume out: "js_le (rect_bottom h) (offset (options w))
        \<or> js_ge (rect_top h) (js_sub (vh h) (offset (options w)))"
  then show nv: "\<not> inView (options w) h"
    by (auto simp: inView_def dest: js_le_not_lt)
  assume "\<not> activated w"
  with nv show "check h (w, p) = (w, p)"
    using check_no_transition [of "(w, p)" h] by simp
next
  let ?h = "\<lparr>rect_top = Finite 700, rect_bottom = Finite 750, innerHeight = Finite 800,
            clientHeight = c\<rparr>"
  show "vh ?h = Finite 800"
    by (simp add: vh_def)
  show "js_sub (Finite 800) (Finite 50) = Finite 750"
    by simp
  show "inView (defaults\<lparr>offset := Finite 50, callback := Function\<rparr>) ?h"
    by (simp add: inView_def vh_def  defaults_def)
  show "''que'' \<in> set (classList_add ''que'' (classList p e))"
    by (simp add: classList_add_def)
  assume "querySelector p ''.sect-1'' = Some e"
  then show "que ''.sect-1''
          (Some (no_opts\<lparr>opts_offset := Some (Finite 50), opts_callback := Some Function\<rparr>))
          ?h p
        = (Some \<lparr>options = defaults\<lparr>offset := Finite 50, callback := Function\<rparr>, el = e,
                 activated = True\<rparr>,
           p\<lparr>classList := (classList p)(e := classList_add ''que'' (classList p e)),
             scroll := False, resize := False,
             calls := calls p @ [(e, Add)]\<rparr>)"
    by (simp add: que_def assign_def defaults_def no_opts_def check_def inView_def vh_def
         activate_def detach_def add_class_def invoke_def truthy_def Let_def)
qed

theorem check_inView_witness:
  "js_le (rect_bottom above) (offset (options (fst (fresh defaults))))
   \<and> \<not> activated (fst (fresh defaults))
   \<and> \<not> inView (options (fst (fresh defaults))) above
   \<and> check above (fresh defaults) = fresh defaults
   \<and> querySelector (snd (fresh defaults)) ''.sect-1'' = Some 0
   \<and> fst (que ''.sect-1''
            (Some (no_opts\<lparr>opts_offset := Some (Finite 50), opts_callback := Some Function\<rparr>))
            \<lparr>rect_top = Finite 700, rect_bottom = Finite 750, innerHeight = Finite 800,
              clientHeight = Finite 800\<rparr>
            (snd (fresh defaults)))
        = Some \<lparr>options = defaults\<lparr>offset := Finite 50, callback := Function\<rparr>, el = 0,
                 activated = True\<rparr>"
  using check_inView [of "fst (fresh defaults)" above "snd (fresh defaults)" 0 "Finite 800"]
  by (simp add: sample_defs code_defs)

text \<open>
  The predicate follows the rounding of the subtraction. With the offset \<^verbatim>\<open>0.1\<close>, a
  viewport 600 pixels high and a rectangle whose top is \<^verbatim>\<open>599.9\<close>, the difference
  \<^verbatim>\<open>600 - 0.1\<close> is the double of \<^verbatim>\<open>599.9\<close> itself: the element is not in view, and
  \<^verbatim>\<open>que\<close> leaves it without the class and keeps both listeners, although the top lies
  below the exact difference.
\<close>

lemma inView_rounded:
  "\<not> inView (defaults\<lparr>offset := literal (1 / 10)\<rparr>) fractional
   \<and> que ''.sect-1'' (Some (no_opts\<lparr>opts_offset := Some (literal (1 / 10))\<rparr>)) fractional page0
     = (Some (fst (fresh (defaults\<lparr>offset := literal (1 / 10)\<rparr>))),
        snd (fresh (defaults\<lparr>offset := literal (1 / 10)\<rparr>)))"
proof -
  have v: "vh fractional = Finite 600"
    by (simp add: vh_def fractional_def)
  have t: "rect_top fractional = literal (5999 / 10)"
    by (simp add: fractional_def)
  have n: "\<not> inView (defaults\<lparr>offset := literal (1 / 10)\<rparr>) fractional"
    by (simp add: inView_def v t sub_600_tenth literal_5999_tenths)
  then have "check fractional (fresh (defaults\<lparr>offset := literal (1 / 10)\<rparr>))
      = fresh (defaults\<lparr>offset := literal (1 / 10)\<rparr>)"
    by (simp add: check_no_transition fresh_def)
  with n show ?thesis
    by (simp add: que_def assign_def defaults_def no_opts_def fresh_def page0_def Let_def)
qed

section \<open>One-shot watchers\<close>

text \<open>
  C2. With \<open>once\<close> set and \<open>repeat\<close> unset, a check of a watcher that is not yet
  activated and finds the element in view runs \<^verbatim>\<open>activate\<close> and then \<^verbatim>\<open>detach\<close>:
  both listeners are gone, and whatever events follow (scroll, resize, or calls of the
  handle's \<^verbatim>\<open>detach\<close>) leave the closure and the page exactly as they are. For a
  watcher made by \<^verbatim>\<open>que\<close> this is the first in-view check: at any later moment, if the
  watcher is activated then both listeners have been removed and no event changes anything.
\<close>

theorem once_detaches:
  "once (options w) \<and> \<not> repeat (options w) \<longrightarrow>
     (\<not> activated w \<and> inView (options w) h \<longrightarrow>
        check h (w, p) = detach (activate (w, p))
      \<and> activated (fst (check h (w, p)))
      \<and> \<not> scroll (snd (check h (w, p))) \<and> \<not> resize (snd (check h (w, p)))
      \<and> run evs (check h (w, p)) = check h (w, p))
   \<and> (que selector given h0 p0 = (Some w, p) \<and> activated (fst (run evs1 (w, p))) \<longrightarrow>
        \<not> scroll (snd (run evs1 (w, p))) \<and> \<not> resize (snd (run evs1 (w, p)))
      \<and> run evs2 (run evs1 (w, p)) = run evs1 (w, p))"
proof (intro impI conjI; (elim conjE)?)
  assume o: "once (options w)" "\<not> repeat (options w)"
  {
    assume "\<not> activated w" "inView (options w) h"
    with o show c: "check h (w, p) = detach (activate (w, p))"
      by (simp add: check_def Let_def)
    then show "activated (fst (check h (w, p)))"
      and d: "\<not> scroll (snd (check h (w, p)))" "\<not> resize (snd (check h (w, p)))"
      by simp_all
    from d show "run evs (check h (w, p)) = check h (w, p)"
      by (rule run_detached)
  }
  {
    assume q: "que selector given h0 p0 = (Some w, p)"
      and a: "activated (fst (run evs1 (w, p)))"
    from q obtain s0 where s0: "(w, p) = check h0 s0" "\<not> activated (fst s0)"
      by (auto dest!: que_Some)
    with o have o0: "once (options (fst s0))" "\<not> repeat (options (fst s0))"
      by (metis check_options fst_conv)+
    from o0 s0(2) have "activated (fst (check h0 s0)) \<longrightarrow>
        \<not> scroll (snd (check h0 s0)) \<and> \<not> resize (snd (check h0 s0))"
      using check_once [of s0 h0] by blast
    with s0(1) have "activated (fst (w, p)) \<longrightarrow> \<not> scroll (snd (w, p)) \<and> \<not> resize (snd (w, p))"
      by simp
    with o have "activated (fst (run evs1 (w, p))) \<longrightarrow>
        \<not> scroll (snd (run evs1 (w, p))) \<and> \<not> resize (snd (run evs1 (w, p)))"
      using run_once [of "(w, p)" evs1] by simp
    with a show d: "\<not> scroll (snd (run evs1 (w, p)))" "\<not> resize (snd (run evs1 (w, p)))"
      by simp_all
    then show "run evs2 (run evs1 (w, p)) = run evs1 (w, p)"
      by (rule run_detached)
  }
qed

theorem once_detaches_witness:
  "once (options (fst (fresh defaults))) \<and> \<not> repeat (options (fst (fresh defaults)))
   \<and> \<not> activated (fst (fresh defaults)) \<and> inView (options (fst (fresh defaults))) visible
   \<and> \<not> scroll (snd (check visible (fresh defaults)))
   \<and> \<not> resize (snd (check visible (fresh defaults)))
   \<and> run [Scroll below, Resize visible, Detach] (check visible (fresh defaults))
       = check visible (fresh defaults)
   \<and> que ''.sect-1'' None above page0 = (Some (fst (fresh defaults)), snd (fresh defaults))
   \<and> activated (fst (run [Scroll visible] (fresh defaults)))
   \<and> run [Resize below] (run [Scroll visible] (fresh defaults))
       = run [Scroll visible] (fresh defaults)"
  using once_detaches [of "fst (fresh defaults)" visible "snd (fresh defaults)"
      "[Scroll below, Resize visible, Detach]" "''.sect-1''" None above page0
      "[Scroll visible]" "[Resize below]"]
  by (simp add: fresh_def defaults_def visible_def above_def below_def page0_def
      que_def assign_def no_opts_def check_def inView_def vh_def Let_def
      activate_def detach_def add_class_def remove_class_def invoke_def truthy_def
      classList_add_def)

section \<open>\<open>once\<close> together with \<open>repeat\<close>\<close>

lemma check_repeat:
  assumes "repeat (options (fst s))"
  shows "check h s = (if inView (options (fst s)) h then activate s
                      else if activated (fst s) then deactivate s else s)"
  using assms by (simp add: check_def Let_def)

lemma activate_once:
  "activate (w\<lparr>options := (options w)\<lparr>once := b\<rparr>\<rparr>, p)
     = ((fst (activate (w, p)))\<lparr>options := (options w)\<lparr>once := b\<rparr>\<rparr>, snd (activate (w, p)))"
  by (simp add: activate_def Let_def invoke_def)

lemma deactivate_once:
  "deactivate (w\<lparr>options := (options w)\<lparr>once := b\<rparr>\<rparr>, p)
     = ((fst (deactivate (w, p)))\<lparr>options := (options w)\<lparr>once := b\<rparr>\<rparr>, snd (deactivate (w, p)))"
  by (simp add: deactivate_def Let_def invoke_def)

text \<open>
  C3, as the code has it. With \<open>repeat\<close> set, \<^verbatim>\<open>check\<close> never detaches: it activates
  whenever the element is in view, deactivates an activated watcher whenever the element is
  out of view, and leaves both listeners as they were. The guard of \<^verbatim>\<open>detach\<close> is
  \<open>once \<and> \<not> repeat\<close>, so it is \<open>once\<close> that has no effect when \<open>repeat\<close> is set: the
  check yields the same page and the same activation whatever \<open>once\<close> is.
\<close>

theorem repeat_overrides_once:
  "repeat (options w) \<longrightarrow>
     check h (w, p) = (if inView (options w) h then activate (w, p)
                       else if activated w then deactivate (w, p) else (w, p))
   \<and> scroll (snd (check h (w, p))) = scroll p
   \<and> resize (snd (check h (w, p))) = resize p
   \<and> check h (w\<lparr>options := (options w)\<lparr>once := b\<rparr>\<rparr>, p)
       = ((fst (check h (w, p)))\<lparr>options := (options w)\<lparr>once := b\<rparr>\<rparr>, snd (check h (w, p)))"
proof (intro impI conjI)
  assume r: "repeat (options w)"
  then show c: "check h (w, p) = (if inView (options w) h then activate (w, p)
                       else if activated w then deactivate (w, p) else (w, p))"
    using check_repeat [of "(w, p)" h] by simp
  then show "scroll (snd (check h (w, p))) = scroll p" "resize (snd (check h (w, p))) = resize p"
    by simp_all
  from r have "check h (w\<lparr>options := (options w)\<lparr>once := b\<rparr>\<rparr>, p)
      = (if inView (options w) h then activate (w\<lparr>options := (options w)\<lparr>once := b\<rparr>\<rparr>, p)
         else if activated w then deactivate (w\<lparr>options := (options w)\<lparr>once := b\<rparr>\<rparr>, p)
         else (w\<lparr>options := (options w)\<lparr>once := b\<rparr>\<rparr>, p))"
    using check_repeat [of "(w\<lparr>options := (options w)\<lparr>once := b\<rparr>\<rparr>, p)" h]
    by (simp add: inView_def)
  with c show "check h (w\<lparr>options := (options w)\<lparr>once := b\<rparr>\<rparr>, p)
       = ((fst (check h (w, p)))\<lparr>options := (options w)\<lparr>once := b\<rparr>\<rparr>, snd (check h (w, p)))"
    by (simp add: activate_once deactivate_once)
qed

theorem repeat_overrides_once_witness:
  "repeat (options (fst (fresh (defaults\<lparr>once := False, repeat := True\<rparr>))))
   \<and> scroll (snd (check visible (fresh (defaults\<lparr>once := False, repeat := True\<rparr>))))
   \<and> resize (snd (check visible (fresh (defaults\<lparr>once := False, repeat := True\<rparr>))))
   \<and> check visible (fresh (defaults\<lparr>once := True, repeat := True\<rparr>))
       = ((fst (check visible (fresh (defaults\<lparr>once := False, repeat := True\<rparr>))))
            \<lparr>options := defaults\<lparr>once := True, repeat := True\<rparr>\<rparr>,
          snd (check visible (fresh (defaults\<lparr>once := False, repeat := True\<rparr>))))"
  using repeat_overrides_once [of "fst (fresh (defaults\<lparr>once := False, repeat := True\<rparr>))"
      visible "snd (fresh (defaults\<lparr>once := False, repeat := True\<rparr>))" True]
  by (simp add: sample_defs code_defs)

text \<open>
  C3 as stated fails. With \<open>once\<close> and \<open>repeat\<close> both set, the first activation (here
  the check inside \<^verbatim>\<open>que\<close>) leaves both listeners registered, and the next scroll event
  with the element below the viewport removes the class again; with \<open>repeat\<close> unset the
  same event changes nothing. So \<open>repeat\<close> is observable while \<open>once\<close> is set.
\<close>

theorem once_repeat_counterexample:
  "que ''.sect-1'' (Some (no_opts\<lparr>opts_once := Some True, opts_repeat := Some True\<rparr>)) visible page0
     = (Some (fst (check visible (fresh (defaults\<lparr>once := True, repeat := True\<rparr>)))),
        snd (check visible (fresh (defaults\<lparr>once := True, repeat := True\<rparr>))))
   \<and> activated (fst (check visible (fresh (defaults\<lparr>once := True, repeat := True\<rparr>))))
   \<and> scroll (snd (check visible (fresh (defaults\<lparr>once := True, repeat := True\<rparr>))))
   \<and> resize (snd (check visible (fresh (defaults\<lparr>once := True, repeat := True\<rparr>))))
   \<and> classList (snd (run [Scroll below]
        (check visible (fresh (defaults\<lparr>once := True, repeat := True\<rparr>))))) 0 = []
   \<and> classList (snd (run [Scroll below]
        (check visible (fresh (defaults\<lparr>once := True, repeat := False\<rparr>))))) 0 = [''que'']"
  by (simp add: sample_defs code_defs)

section \<open>Repeating watchers\<close>

lemma check_alternate:
  assumes "repeat (options (fst s))" "inView (options (fst s)) h = b" "b \<or> activated (fst s)"
  shows "check h s = (if b then activate s else deactivate s)"
    and "transition h (fst s) = Some (if b then Add else Remove)"
  using assms by (auto simp: check_def transition_def Let_def)

lemma checks_toggles:
  "repeat (options (fst s)) \<Longrightarrow> alternates (options (fst s)) b hs \<Longrightarrow> b \<or> activated (fst s) \<Longrightarrow>
     checks hs s = toggles b (length hs) s \<and> transitions hs s = actions b (length hs)"
proof (induction hs arbitrary: b s)
  case Nil
  then show ?case by simp
next
  case (Cons h hs)
  from Cons.prems have v: "inView (options (fst s)) h = b"
    and rest: "alternates (options (fst s)) (\<not> b) hs"
    by simp_all
  from Cons.prems(1) v Cons.prems(3)
  have c: "check h s = (if b then activate s else deactivate s)"
    and t: "transition h (fst s) = Some (if b then Add else Remove)"
    by (rule check_alternate)+
  have "\<not> b \<or> activated (fst (check h s))"
    by (simp add: c)
  with Cons.prems(1) rest
  have "checks hs (check h s) = toggles (\<not> b) (length hs) (check h s)
      \<and> transitions hs (check h s) = actions (\<not> b) (length hs)"
    using Cons.IH [of "check h s" "\<not> b"] by simp
  with c t show ?case by simp
qed

lemma alternates_last:
  "repeat (options (fst s)) \<Longrightarrow> alternates (options (fst s)) b hs \<Longrightarrow> b \<or> activated (fst s) \<Longrightarrow>
     hs \<noteq> [] \<Longrightarrow>
     checks hs s = (if inView (options (fst s)) (last hs) then activate (checks (butlast hs) s)
                    else deactivate (checks (butlast hs) s))"
proof (induction hs arbitrary: b s)
  case Nil
  then show ?case by simp
next
  case (Cons h hs)
  from Cons.prems have v: "inView (options (fst s)) h = b"
    and rest: "alternates (options (fst s)) (\<not> b) hs"
    by simp_all
  from Cons.prems(1) v Cons.prems(3)
  have c: "check h s = (if b then activate s else deactivate s)"
    by (rule check_alternate)
  show ?case
  proof (cases "hs = []")
    case True
    with c v show ?thesis by simp
  next
    case False
    have "\<not> b \<or> activated (fst (check h s))"
      by (simp add: c)
    with Cons.prems(1) rest False
    have "checks hs (check h s) =
        (if inView (options (fst (check h s))) (last hs)
         then activate (checks (butlast hs) (check h s))
         else deactivate (checks (butlast hs) (check h s)))"
      using Cons.IH [of "check h s" "\<not> b"] by simp
    with False show ?thesis by simp
  qed
qed

lemma checks_leading:
  assumes "repeat (options (fst s))" "alternates (options (fst s)) False hs"
    "\<not> activated (fst s)"
  shows "checks hs s = toggles True (length (tl hs)) s
    \<and> transitions hs s = actions True (length (tl hs))"
proof (cases hs)
  case Nil
  then show ?thesis by simp
next
  case (Cons h hs')
  with assms(2) have v: "\<not> inView (options (fst s)) h"
    and rest: "alternates (options (fst s)) True hs'"
    by simp_all
  from v assms(3) have c: "check h s = s"
    by (rule check_no_transition)
  from v assms(3) have t: "transition h (fst s) = None"
    by (simp add: transition_def Let_def)
  from assms(1) rest have "checks hs' s = toggles True (length hs') s
      \<and> transitions hs' s = actions True (length hs')"
    using checks_toggles [of s True hs'] by simp
  with Cons c t show ?thesis by simp
qed

text \<open>
  C4, as the code has it. Take a watcher with \<open>repeat\<close> set and readings that alternate
  between in view and out of view. If the first reading is in view, or the watcher is
  already activated, every check runs a transition: \<^verbatim>\<open>activate\<close> when in view (add
  \<open>classToAdd\<close>, remove \<open>classToRemove\<close>), \<^verbatim>\<open>deactivate\<close> when out of view (remove
  \<open>classToAdd\<close>, add \<open>classToRemove\<close> if configured), in turn. If the first reading is
  out of view and the watcher is not activated, that first check does nothing and the
  alternation starts, with \<^verbatim>\<open>activate\<close>, at the second. In both cases the callback, if it
  is a function, is called once per transition, with \<open>Add\<close> and \<open>Remove\<close> in turn. After
  the last check of a sequence of the first kind, with \<open>classToRemove\<close> different from
  \<open>classToAdd\<close>, the element carries \<open>classToAdd\<close> exactly when that check was in view
  and a configured \<open>classToRemove\<close> exactly when it was out of view.
\<close>

theorem repeat_alternates:
  "repeat (options w) \<and> alternates (options w) b hs \<longrightarrow>
     (b \<or> activated w \<longrightarrow>
        checks hs (w, p) = toggles b (length hs) (w, p)
      \<and> transitions hs (w, p) = actions b (length hs))
   \<and> (\<not> b \<and> \<not> activated w \<longrightarrow>
        checks hs (w, p) = toggles True (length (tl hs)) (w, p)
      \<and> transitions hs (w, p) = actions True (length (tl hs)))
   \<and> calls (snd (checks hs (w, p))) =
       calls p @ (if callback (options w) = Function
                  then map (Pair (el w)) (transitions hs (w, p)) else [])
   \<and> ((b \<or> activated w) \<and> hs \<noteq> []
        \<and> classToRemove (options w) \<noteq> Some (classToAdd (options w)) \<longrightarrow>
        (classToAdd (options w) \<in> set (classList (snd (checks hs (w, p))) (el w)))
          = inView (options w) (last hs)
      \<and> (truthy (classToRemove (options w)) \<longrightarrow>
          (the (classToRemove (options w)) \<in> set (classList (snd (checks hs (w, p))) (el w)))
            = (\<not> inView (options w) (last hs))))"
proof (intro impI; elim conjE)
  assume r: "repeat (options w)" and a: "alternates (options w) b hs"
  have 1: "checks hs (w, p) = toggles b (length hs) (w, p)
      \<and> transitions hs (w, p) = actions b (length hs)" if "b \<or> activated w"
    using r a that checks_toggles [of "(w, p)" b hs] by simp
  have 2: "checks hs (w, p) = toggles True (length (tl hs)) (w, p)
      \<and> transitions hs (w, p) = actions True (length (tl hs))" if "\<not> b \<and> \<not> activated w"
    using r a that checks_leading [of "(w, p)" hs] by simp
  have 3: "calls (snd (checks hs (w, p))) =
       calls p @ (if callback (options w) = Function
                  then map (Pair (el w)) (transitions hs (w, p)) else [])"
    using checks_calls [of hs "(w, p)"] by simp
  have 4: "(classToAdd (options w) \<in> set (classList (snd (checks hs (w, p))) (el w)))
          = inView (options w) (last hs)
      \<and> (truthy (classToRemove (options w)) \<longrightarrow>
          (the (classToRemove (options w)) \<in> set (classList (snd (checks hs (w, p))) (el w)))
            = (\<not> inView (options w) (last hs)))"
    if s: "b \<or> activated w" and ne: "hs \<noteq> []"
      and d: "classToRemove (options w) \<noteq> Some (classToAdd (options w))"
  proof -
    let ?s = "checks (butlast hs) (w, p)"
    have l: "checks hs (w, p) = (if inView (options w) (last hs) then activate ?s else deactivate ?s)"
      using r a s ne alternates_last [of "(w, p)" b hs] by simp
    have o: "options (fst ?s) = options w" "el (fst ?s) = el w"
      by simp_all
    have t: "truthy (classToRemove (options w)) \<Longrightarrow>
        the (classToRemove (options w)) \<noteq> classToAdd (options w)"
      using d truthy_the [of "classToRemove (options w)"] by metis
    show ?thesis
      using l t activate_classes [of ?s] deactivate_classes [of ?s] o by auto
  qed
  from 1 2 3 4 show "(b \<or> activated w \<longrightarrow>
        checks hs (w, p) = toggles b (length hs) (w, p)
      \<and> transitions hs (w, p) = actions b (length hs))
   \<and> (\<not> b \<and> \<not> activated w \<longrightarrow>
        checks hs (w, p) = toggles True (length (tl hs)) (w, p)
      \<and> transitions hs (w, p) = actions True (length (tl hs)))
   \<and> calls (snd (checks hs (w, p))) =
       calls p @ (if callback (options w) = Function
                  then map (Pair (el w)) (transitions hs (w, p)) else [])
   \<and> ((b \<or> activated w) \<and> hs \<noteq> []
        \<and> classToRemove (options w) \<noteq> Some (classToAdd (options w)) \<longrightarrow>
        (classToAdd (options w) \<in> set (classList (snd (checks hs (w, p))) (el w)))
          = inView (options w) (last hs)
      \<and> (truthy (classToRemove (options w)) \<longrightarrow>
          (the (classToRemove (options w)) \<in> set (classList (snd (checks hs (w, p))) (el w)))
            = (\<not> inView (options w) (last hs))))"
    by blast
qed

theorem repeat_alternates_witness:
  "repeat (options (fst (fresh (defaults\<lparr>classToRemove := Some ''out'', repeat := True, callback := Function\<rparr>))))
   \<and> alternates (options (fst (fresh (defaults\<lparr>classToRemove := Some ''out'', repeat := True, callback := Function\<rparr>))))
        True [visible, below, visible, above]
   \<and> alternates (options (fst (fresh (defaults\<lparr>classToRemove := Some ''out'', repeat := True, callback := Function\<rparr>))))
        False [above, visible, below]
   \<and> \<not> activated (fst (fresh (defaults\<lparr>classToRemove := Some ''out'', repeat := True, callback := Function\<rparr>)))
   \<and> classToRemove (defaults\<lparr>classToRemove := Some ''out'', repeat := True, callback := Function\<rparr>)
       \<noteq> Some (classToAdd (defaults\<lparr>classToRemove := Some ''out'', repeat := True, callback := Function\<rparr>))
   \<and> truthy (classToRemove (defaults\<lparr>classToRemove := Some ''out'', repeat := True, callback := Function\<rparr>))
   \<and> transitions [visible, below, visible, above]
        (fresh (defaults\<lparr>classToRemove := Some ''out'', repeat := True, callback := Function\<rparr>))
       = [Add, Remove, Add, Remove]
   \<and> calls (snd (checks [visible, below, visible, above]
        (fresh (defaults\<lparr>classToRemove := Some ''out'', repeat := True, callback := Function\<rparr>))))
       = [(0, Add), (0, Remove), (0, Add), (0, Remove)]
   \<and> classList (snd (checks [visible, below, visible, above]
        (fresh (defaults\<lparr>classToRemove := Some ''out'', repeat := True, callback := Function\<rparr>)))) 0
       = [''out'']
   \<and> calls (snd (checks [above, visible, below]
        (fresh (defaults\<lparr>classToRemove := Some ''out'', repeat := True, callback := Function\<rparr>))))
       = [(0, Add), (0, Remove)]"
  using repeat_alternates [of
      "fst (fresh (defaults\<lparr>classToRemove := Some ''out'', repeat := True, callback := Function\<rparr>))"
      True "[visible, below, visible, above]"
      "snd (fresh (defaults\<lparr>classToRemove := Some ''out'', repeat := True, callback := Function\<rparr>))"]
    repeat_alternates [of
      "fst (fresh (defaults\<lparr>classToRemove := Some ''out'', repeat := True, callback := Function\<rparr>))"
      False "[above, visible, below]"
      "snd (fresh (defaults\<lparr>classToRemove := Some ''out'', repeat := True, callback := Function\<rparr>))"]
  by (simp add: sample_defs code_defs transition_def)

text \<open>
  C4 as stated fails for a sequence that starts out of view on a watcher that has not been
  activated, as when the element is below the fold while \<^verbatim>\<open>que\<close> runs: the readings
  alternate, yet the first check changes nothing (no \<^verbatim>\<open>out\<close> class, no callback), so
  the two checks make one transition and one call.
\<close>

theorem repeat_alternates_counterexample:
  "repeat (defaults\<lparr>classToRemove := Some ''out'', repeat := True, callback := Function\<rparr>)
   \<and> alternates (defaults\<lparr>classToRemove := Some ''out'', repeat := True, callback := Function\<rparr>)
        False [above, visible]
   \<and> check above (fresh (defaults\<lparr>classToRemove := Some ''out'', repeat := True, callback := Function\<rparr>))
       = fresh (defaults\<lparr>classToRemove := Some ''out'', repeat := True, callback := Function\<rparr>)
   \<and> ''out'' \<notin> set (classList (snd (check above
        (fresh (defaults\<lparr>classToRemove := Some ''out'', repeat := True, callback := Function\<rparr>)))) 0)
   \<and> transitions [above, visible]
        (fresh (defaults\<lparr>classToRemove := Some ''out'', repeat := True, callback := Function\<rparr>))
       = [Add]
   \<and> calls (snd (checks [above, visible]
        (fresh (defaults\<lparr>classToRemove := Some ''out'', repeat := True, callback := Function\<rparr>))))
       = [(0, Add)]"
  by (simp add: sample_defs code_defs transition_def)

section \<open>The two classes\<close>

text \<open>
  C5, as the code has it. Let \<open>classToRemove\<close> be configured and different from
  \<open>classToAdd\<close>. A check that activates leaves \<open>classToAdd\<close> on the element and
  \<open>classToRemove\<close> off it; a check that deactivates leaves \<open>classToRemove\<close> on it and
  \<open>classToAdd\<close> off it; and no check makes both present: if the element does not carry
  both before a check, it does not carry both after it.
\<close>

theorem exclusive_classes:
  "truthy (classToRemove (options w)) \<and> classToRemove (options w) \<noteq> Some (classToAdd (options w))
   \<longrightarrow>
     (inView (options w) h \<and> (\<not> activated w \<or> repeat (options w)) \<longrightarrow>
        classToAdd (options w) \<in> set (classList (snd (check h (w, p))) (el w))
      \<and> the (classToRemove (options w)) \<notin> set (classList (snd (check h (w, p))) (el w)))
   \<and> (\<not> inView (options w) h \<and> activated w \<and> repeat (options w) \<longrightarrow>
        classToAdd (options w) \<notin> set (classList (snd (check h (w, p))) (el w))
      \<and> the (classToRemove (options w)) \<in> set (classList (snd (check h (w, p))) (el w)))
   \<and> (\<not> (classToAdd (options w) \<in> set (classList p (el w))
          \<and> the (classToRemove (options w)) \<in> set (classList p (el w))) \<longrightarrow>
       \<not> (classToAdd (options w) \<in> set (classList (snd (check h (w, p))) (el w))
          \<and> the (classToRemove (options w)) \<in> set (classList (snd (check h (w, p))) (el w))))"
proof (intro impI; elim conjE)
  assume t: "truthy (classToRemove (options w))"
    and ne: "classToRemove (options w) \<noteq> Some (classToAdd (options w))"
  from t have "classToRemove (options w) = Some (the (classToRemove (options w)))"
    by (rule truthy_the)
  with ne have d: "the (classToRemove (options w)) \<noteq> classToAdd (options w)"
    by metis
  have a: "set (classList (snd (activate (w, p))) (el w)) =
      insert (classToAdd (options w)) (set (classList p (el w))) - {the (classToRemove (options w))}"
    using t activate_classes [of "(w, p)"] by simp
  have b: "set (classList (snd (deactivate (w, p))) (el w)) =
      insert (the (classToRemove (options w))) (set (classList p (el w)) - {classToAdd (options w)})"
    using t deactivate_classes [of "(w, p)"] by simp
  show "(inView (options w) h \<and> (\<not> activated w \<or> repeat (options w)) \<longrightarrow>
        classToAdd (options w) \<in> set (classList (snd (check h (w, p))) (el w))
      \<and> the (classToRemove (options w)) \<notin> set (classList (snd (check h (w, p))) (el w)))
   \<and> (\<not> inView (options w) h \<and> activated w \<and> repeat (options w) \<longrightarrow>
        classToAdd (options w) \<notin> set (classList (snd (check h (w, p))) (el w))
      \<and> the (classToRemove (options w)) \<in> set (classList (snd (check h (w, p))) (el w)))
   \<and> (\<not> (classToAdd (options w) \<in> set (classList p (el w))
          \<and> the (classToRemove (options w)) \<in> set (classList p (el w))) \<longrightarrow>
       \<not> (classToAdd (options w) \<in> set (classList (snd (check h (w, p))) (el w))
          \<and> the (classToRemove (options w)) \<in> set (classList (snd (check h (w, p))) (el w))))"
    using a b d by (auto simp: check_def Let_def)
qed

theorem exclusive_classes_witness:
  "truthy (classToRemove (defaults\<lparr>classToRemove := Some ''out'', repeat := True\<rparr>))
   \<and> classToRemove (defaults\<lparr>classToRemove := Some ''out'', repeat := True\<rparr>)
       \<noteq> Some (classToAdd (defaults\<lparr>classToRemove := Some ''out'', repeat := True\<rparr>))
   \<and> inView (defaults\<lparr>classToRemove := Some ''out'', repeat := True\<rparr>) visible
   \<and> \<not> activated (fst (fresh (defaults\<lparr>classToRemove := Some ''out'', repeat := True\<rparr>)))
   \<and> ''que'' \<in> set (classList (snd (check visible
        (fresh (defaults\<lparr>classToRemove := Some ''out'', repeat := True\<rparr>)))) 0)
   \<and> ''out'' \<notin> set (classList (snd (check visible
        (fresh (defaults\<lparr>classToRemove := Some ''out'', repeat := True\<rparr>)))) 0)
   \<and> \<not> inView (defaults\<lparr>classToRemove := Some ''out'', repeat := True\<rparr>) below
   \<and> activated (fst (check visible (fresh (defaults\<lparr>classToRemove := Some ''out'', repeat := True\<rparr>))))
   \<and> ''que'' \<notin> set (classList (snd (check below (check visible
        (fresh (defaults\<lparr>classToRemove := Some ''out'', repeat := True\<rparr>))))) 0)
   \<and> ''out'' \<in> set (classList (snd (check below (check visible
        (fresh (defaults\<lparr>classToRemove := Some ''out'', repeat := True\<rparr>))))) 0)"
  using exclusive_classes [of "fst (fresh (defaults\<lparr>classToRemove := Some ''out'', repeat := True\<rparr>))"
      visible "snd (fresh (defaults\<lparr>classToRemove := Some ''out'', repeat := True\<rparr>))"]
    exclusive_classes [of
      "fst (check visible (fresh (defaults\<lparr>classToRemove := Some ''out'', repeat := True\<rparr>)))"
      below
      "snd (check visible (fresh (defaults\<lparr>classToRemove := Some ''out'', repeat := True\<rparr>)))"]
  by (simp add: sample_defs code_defs)

text \<open>
  C5 as stated fails in two ways. An element that carries both classes in its markup
  still carries both after a check that makes no transition, here the first check with the
  element above the viewport. And when both options name the same class, \<^verbatim>\<open>deactivate\<close>
  removes it and adds it again, so that the element ends with the one class that is both
  \<open>classToAdd\<close> and \<open>classToRemove\<close>.
\<close>

theorem exclusive_classes_counterexample:
  "truthy (classToRemove (defaults\<lparr>classToRemove := Some ''out''\<rparr>))
   \<and> classList (snd (check above
        (\<lparr>options = defaults\<lparr>classToRemove := Some ''out''\<rparr>, el = 0, activated = False\<rparr>,
         page_both\<lparr>scroll := True, resize := True\<rparr>))) 0 = [''que'', ''out'']
   \<and> truthy (classToRemove (defaults\<lparr>classToRemove := Some ''que'', repeat := True\<rparr>))
   \<and> classList (snd (checks [visible, above]
        (fresh (defaults\<lparr>classToRemove := Some ''que'', repeat := True\<rparr>)))) 0 = [''que'']"
  by (simp add: sample_defs code_defs page_both_def)

section \<open>No element\<close>

text \<open>
  C6. When the selector matches no element, \<^verbatim>\<open>que\<close> returns no handle and leaves the
  page as it was: no listener registered, no class changed, no callback called.
\<close>

theorem que_no_element:
  "querySelector p selector = None \<longrightarrow> que selector given h p = (None, p)"
  by (simp add: que_def Let_def)

theorem que_no_element_witness:
  "querySelector page0 ''#missing'' = None
   \<and> que ''#missing'' (Some (no_opts\<lparr>opts_callback := Some Function\<rparr>)) visible page0 = (None, page0)"
  using que_no_element [of page0 "''#missing''" "Some (no_opts\<lparr>opts_callback := Some Function\<rparr>)" visible]
  by (simp add: page0_def)

section \<open>Detaching\<close>

lemma detach_twice: "detach (detach s) = detach s"
  by (simp add: detach_def)

lemma detach_funpow: "(detach ^^ Suc n) s = detach s"
  by (induction n) (simp_all add: detach_twice)

text \<open>
  C7. \<^verbatim>\<open>detach\<close> is idempotent: calling it once or any number of times gives the same
  state. It clears the two listeners and touches nothing else: the closure, with its
  \<open>activated\<close> flag, the class lists and the callback log stay as they were, and no
  event after it changes the state.
\<close>

theorem detach_idempotent:
  "detach (detach s) = detach s
   \<and> (detach ^^ Suc n) s = detach s
   \<and> fst (detach s) = fst s
   \<and> snd (detach s) = (snd s)\<lparr>scroll := False, resize := False\<rparr>
   \<and> activated (fst (detach s)) = activated (fst s)
   \<and> classList (snd (detach s)) = classList (snd s)
   \<and> calls (snd (detach s)) = calls (snd s)
   \<and> \<not> scroll (snd (detach s)) \<and> \<not> resize (snd (detach s))
   \<and> run evs (detach s) = detach s"
proof (intro conjI)
  show "detach (detach s) = detach s"
    by (rule detach_twice)
  show "(detach ^^ Suc n) s = detach s"
    by (rule detach_funpow)
  show "run evs (detach s) = detach s"
    by (simp add: run_detached)
qed (simp_all add: detach_def)

theorem detach_idempotent_witness:
  "detach (detach (check visible (fresh (defaults\<lparr>repeat := True\<rparr>))))
     = detach (check visible (fresh (defaults\<lparr>repeat := True\<rparr>)))
   \<and> (detach ^^ Suc 2) (check visible (fresh (defaults\<lparr>repeat := True\<rparr>)))
     = detach (check visible (fresh (defaults\<lparr>repeat := True\<rparr>)))
   \<and> activated (fst (detach (check visible (fresh (defaults\<lparr>repeat := True\<rparr>)))))
   \<and> classList (snd (detach (check visible (fresh (defaults\<lparr>repeat := True\<rparr>))))) 0 = [''que'']
   \<and> run [Scroll below, Detach, Resize below] (detach (check visible (fresh (defaults\<lparr>repeat := True\<rparr>))))
     = detach (check visible (fresh (defaults\<lparr>repeat := True\<rparr>)))"
  using detach_idempotent [of "check visible (fresh (defaults\<lparr>repeat := True\<rparr>))" 2
      "[Scroll below, Detach, Resize below]"]
  by (simp add: sample_defs code_defs)

section \<open>The class of an element out of view\<close>

text \<open>
  C8, as the code has it. Let \<open>classToRemove\<close> be configured. A check that finds the
  element out of view adds \<open>classToRemove\<close> when the watcher is activated and \<open>repeat\<close>
  is set: it runs \<^verbatim>\<open>deactivate\<close>, and the element carries the class afterwards. Every
  other check that finds the element out of view changes nothing.
\<close>

theorem out_of_view_class:
  "truthy (classToRemove (options w)) \<and> \<not> inView (options w) h \<longrightarrow>
     (activated w \<and> repeat (options w) \<longrightarrow>
        check h (w, p) = deactivate (w, p)
      \<and> the (classToRemove (options w)) \<in> set (classList (snd (check h (w, p))) (el w)))
   \<and> (\<not> (activated w \<and> repeat (options w)) \<longrightarrow> check h (w, p) = (w, p))"
proof (intro impI conjI; (elim conjE)?)
  assume t: "truthy (classToRemove (options w))" and nv: "\<not> inView (options w) h"
  from nv show "check h (w, p) = (w, p)" if "\<not> (activated w \<and> repeat (options w))"
    using that by (auto simp: check_def Let_def)
  assume "activated w" "repeat (options w)"
  with nv show c: "check h (w, p) = deactivate (w, p)"
    by (simp add: check_def Let_def)
  from t show "the (classToRemove (options w)) \<in> set (classList (snd (check h (w, p))) (el w))"
    using deactivate_classes [of "(w, p)"] by (simp add: c)
qed

theorem out_of_view_class_witness:
  "truthy (classToRemove (defaults\<lparr>classToRemove := Some ''out'', repeat := True\<rparr>))
   \<and> \<not> inView (defaults\<lparr>classToRemove := Some ''out'', repeat := True\<rparr>) below
   \<and> activated (fst (check visible (fresh (defaults\<lparr>classToRemove := Some ''out'', repeat := True\<rparr>))))
   \<and> repeat (options (fst (check visible (fresh (defaults\<lparr>classToRemove := Some ''out'', repeat := True\<rparr>)))))
   \<and> classList (snd (check below
        (check visible (fresh (defaults\<lparr>classToRemove := Some ''out'', repeat := True\<rparr>))))) 0 = [''out'']
   \<and> \<not> (activated (fst (fresh (defaults\<lparr>classToRemove := Some ''out'', repeat := True\<rparr>)))
         \<and> repeat (options (fst (fresh (defaults\<lparr>classToRemove := Some ''out'', repeat := True\<rparr>)))))
   \<and> check below (fresh (defaults\<lparr>classToRemove := Some ''out'', repeat := True\<rparr>))
       = fresh (defaults\<lparr>classToRemove := Some ''out'', repeat := True\<rparr>)"
  using out_of_view_class [of
      "fst (check visible (fresh (defaults\<lparr>classToRemove := Some ''out'', repeat := True\<rparr>)))"
      below
      "snd (check visible (fresh (defaults\<lparr>classToRemove := Some ''out'', repeat := True\<rparr>)))"]
    out_of_view_class [of "fst (fresh (defaults\<lparr>classToRemove := Some ''out'', repeat := True\<rparr>))"
      below "snd (fresh (defaults\<lparr>classToRemove := Some ''out'', repeat := True\<rparr>))"]
  by (simp add: sample_defs code_defs)

text \<open>
  C8 as stated fails. With \<open>classToRemove\<close> configured and the element above the
  viewport, the check inside \<^verbatim>\<open>que\<close> leaves the element without the class; and with
  \<open>repeat\<close> unset, a watcher that was activated keeps \<open>classToAdd\<close> and never gets
  the class when the element leaves the view.
\<close>

theorem out_of_view_class_counterexample:
  "truthy (classToRemove (assign defaults (no_opts\<lparr>opts_classToRemove := Some (Some ''out'')\<rparr>)))
   \<and> \<not> inView (assign defaults (no_opts\<lparr>opts_classToRemove := Some (Some ''out'')\<rparr>)) above
   \<and> ''out'' \<notin> set (classList
        (snd (que ''.sect-1'' (Some (no_opts\<lparr>opts_classToRemove := Some (Some ''out'')\<rparr>)) above page0)) 0)
   \<and> ''out'' \<notin> set (classList
        (snd (check below (check visible (fresh (defaults\<lparr>classToRemove := Some ''out'', once := False\<rparr>))))) 0)"
  by (simp add: sample_defs code_defs)

section \<open>Order of the transitions\<close>

lemma first_call:
  assumes "\<not> activated (fst s)"
  shows "calls (snd (checks hs s)) = calls (snd s)
    \<or> hd (drop (length (calls (snd s))) (calls (snd (checks hs s)))) = (el (fst s), Add)"
proof (cases "callback (options (fst s)) = Function \<and> transitions hs s \<noteq> []")
  case True
  with assms have "hd (transitions hs s) = Add"
    using transitions_first [of s hs] by simp
  with True have "hd (map (Pair (el (fst s))) (transitions hs s)) = (el (fst s), Add)"
    by (simp add: hd_map)
  with True show ?thesis
    by (simp add: checks_calls)
next
  case False
  then show ?thesis
    by (auto simp: checks_calls)
qed

text \<open>
  C9. Along any sequence of checks of a watcher that starts not activated, as \<^verbatim>\<open>que\<close>
  creates it, the first transition, if there is one, is an activation: a check of a watcher
  that is not activated never deactivates. The callback is called once per transition, so
  its first call, if any, has the action \<open>Add\<close>. The same holds for the calls made from
  the construction by \<^verbatim>\<open>que\<close> through any later checks.
\<close>

theorem first_callback_add:
  "(\<not> activated w \<longrightarrow>
      (transitions hs (w, p) = [] \<or> hd (transitions hs (w, p)) = Add)
    \<and> transition h w \<noteq> Some Remove
    \<and> calls (snd (checks hs (w, p))) =
        calls p @ (if callback (options w) = Function
                   then map (Pair (el w)) (transitions hs (w, p)) else [])
    \<and> (calls (snd (checks hs (w, p))) = calls p
        \<or> hd (drop (length (calls p)) (calls (snd (checks hs (w, p))))) = (el w, Add)))
   \<and> (que selector given h0 p0 = (Some w', p') \<longrightarrow>
        calls (snd (checks hs (w', p'))) = calls p0
      \<or> hd (drop (length (calls p0)) (calls (snd (checks hs (w', p'))))) = (el w', Add))"
proof (intro conjI impI)
  assume na: "\<not> activated w"
  then show "transitions hs (w, p) = [] \<or> hd (transitions hs (w, p)) = Add"
    using transitions_first [of "(w, p)" hs] by simp
  from na show "transition h w \<noteq> Some Remove"
    by (simp add: transition_def Let_def)
  show "calls (snd (checks hs (w, p))) =
        calls p @ (if callback (options w) = Function
                   then map (Pair (el w)) (transitions hs (w, p)) else [])"
    using checks_calls [of hs "(w, p)"] by simp
  from na show "calls (snd (checks hs (w, p))) = calls p
        \<or> hd (drop (length (calls p)) (calls (snd (checks hs (w, p))))) = (el w, Add)"
    using first_call [of "(w, p)" hs] by simp
next
  assume "que selector given h0 p0 = (Some w', p')"
  then obtain s0 where s0: "(w', p') = check h0 s0" "\<not> activated (fst s0)"
    "snd s0 = p0\<lparr>scroll := True, resize := True\<rparr>"
    by (auto dest!: que_Some)
  from s0(1) have e: "el w' = el (fst s0)"
    by (metis check_el fst_conv)
  from s0(1) have c: "checks hs (w', p') = checks (h0 # hs) s0"
    by simp
  from s0(3) have l: "calls (snd s0) = calls p0"
    by simp
  from s0(2) show "calls (snd (checks hs (w', p'))) = calls p0
      \<or> hd (drop (length (calls p0)) (calls (snd (checks hs (w', p'))))) = (el w', Add)"
    using first_call [of s0 "h0 # hs"] unfolding c e l by simp
qed

theorem first_callback_add_witness:
  "\<not> activated (fst (fresh (defaults\<lparr>repeat := True, callback := Function\<rparr>)))
   \<and> transitions [above, below, visible, above, visible]
        (fresh (defaults\<lparr>repeat := True, callback := Function\<rparr>)) = [Add, Remove, Add]
   \<and> calls (snd (checks [above, below, visible, above, visible]
        (fresh (defaults\<lparr>repeat := True, callback := Function\<rparr>))))
       = [(0, Add), (0, Remove), (0, Add)]
   \<and> que ''.sect-1'' (Some (no_opts\<lparr>opts_repeat := Some True, opts_callback := Some Function\<rparr>))
        above page0
       = (Some (fst (fresh (defaults\<lparr>repeat := True, callback := Function\<rparr>))),
          snd (fresh (defaults\<lparr>repeat := True, callback := Function\<rparr>)))"
  using first_callback_add [of "fst (fresh (defaults\<lparr>repeat := True, callback := Function\<rparr>))"
      "[above, below, visible, above, visible]"
      "snd (fresh (defaults\<lparr>repeat := True, callback := Function\<rparr>))" above
      "''.sect-1''" "Some (no_opts\<lparr>opts_repeat := Some True, opts_callback := Some Function\<rparr>)"
      above page0 "fst (fresh (defaults\<lparr>repeat := True, callback := Function\<rparr>))"
      "snd (fresh (defaults\<lparr>repeat := True, callback := Function\<rparr>))"]
  by (simp add: sample_defs code_defs transition_def)

section \<open>Watchers that do not repeat\<close>

lemma step_settled:
  assumes "\<not> repeat (options (fst s))" "activated (fst s)"
  shows "fst (step ev s) = fst s \<and> classList (snd (step ev s)) = classList (snd s)
    \<and> calls (snd (step ev s)) = calls (snd s)"
  using assms by (cases ev) (simp_all add: check_settled)

lemma run_settled:
  "\<not> repeat (options (fst s)) \<Longrightarrow> activated (fst s) \<Longrightarrow>
     fst (run evs s) = fst s \<and> classList (snd (run evs s)) = classList (snd s)
     \<and> calls (snd (run evs s)) = calls (snd s)"
proof (induction evs arbitrary: s)
  case Nil
  then show ?case by simp
next
  case (Cons ev evs)
  from Cons.prems have st: "fst (step ev s) = fst s \<and> classList (snd (step ev s)) = classList (snd s)
    \<and> calls (snd (step ev s)) = calls (snd s)"
    by (rule step_settled)
  with Cons.prems have "fst (run evs (step ev s)) = fst (step ev s)
     \<and> classList (snd (run evs (step ev s))) = classList (snd (step ev s))
     \<and> calls (snd (run evs (step ev s))) = calls (snd (step ev s))"
    using Cons.IH [of "step ev s"] by simp
  with st show ?case by simp
qed

text \<open>
  C10. With \<open>repeat\<close> unset, whatever \<open>once\<close> is, a sequence of checks makes no
  transition at all or exactly one, an activation, and that only on a watcher that was not
  activated; it never deactivates. The callback is called once per transition. Once the
  watcher is activated, every check is the identity, and no sequence of events changes the
  closure, the class lists or the callback log, also when the listeners stay registered.
\<close>

theorem no_repeat_one_activation:
  "\<not> repeat (options w) \<longrightarrow>
     (transitions hs (w, p) = [] \<or> (\<not> activated w \<and> transitions hs (w, p) = [Add]))
   \<and> calls (snd (checks hs (w, p))) =
       calls p @ (if callback (options w) = Function
                  then map (Pair (el w)) (transitions hs (w, p)) else [])
   \<and> (activated w \<longrightarrow>
        check h (w, p) = (w, p) \<and> checks hs (w, p) = (w, p)
      \<and> fst (run evs (w, p)) = w
      \<and> classList (snd (run evs (w, p))) = classList p
      \<and> calls (snd (run evs (w, p))) = calls p)"
proof (intro impI conjI)
  assume r: "\<not> repeat (options w)"
  then show "transitions hs (w, p) = [] \<or> (\<not> activated w \<and> transitions hs (w, p) = [Add])"
    using transitions_no_repeat [of "(w, p)" hs] by simp
  show "calls (snd (checks hs (w, p))) =
       calls p @ (if callback (options w) = Function
                  then map (Pair (el w)) (transitions hs (w, p)) else [])"
    using checks_calls [of hs "(w, p)"] by simp
  assume a: "activated w"
  with r show "check h (w, p) = (w, p)" "checks hs (w, p) = (w, p)"
    by (simp_all add: check_settled checks_settled)
  from r a show "fst (run evs (w, p)) = w" "classList (snd (run evs (w, p))) = classList p"
    "calls (snd (run evs (w, p))) = calls p"
    using run_settled [of "(w, p)" evs] by simp_all
qed

theorem no_repeat_one_activation_witness:
  "\<not> repeat (options (fst (fresh (defaults\<lparr>once := False, callback := Function\<rparr>))))
   \<and> transitions [above, visible, below, visible]
        (fresh (defaults\<lparr>once := False, callback := Function\<rparr>)) = [Add]
   \<and> calls (snd (checks [above, visible, below, visible]
        (fresh (defaults\<lparr>once := False, callback := Function\<rparr>)))) = [(0, Add)]
   \<and> activated (fst (check visible (fresh (defaults\<lparr>once := False, callback := Function\<rparr>))))
   \<and> scroll (snd (check visible (fresh (defaults\<lparr>once := False, callback := Function\<rparr>))))
   \<and> classList (snd (run [Scroll below, Resize visible]
        (check visible (fresh (defaults\<lparr>once := False, callback := Function\<rparr>))))) 0 = [''que'']"
  using no_repeat_one_activation [of "fst (fresh (defaults\<lparr>once := False, callback := Function\<rparr>))"
      "[above, visible, below, visible]"
      "snd (fresh (defaults\<lparr>once := False, callback := Function\<rparr>))"]
    no_repeat_one_activation [of
      "fst (check visible (fresh (defaults\<lparr>once := False, callback := Function\<rparr>)))"
      "[]" "snd (check visible (fresh (defaults\<lparr>once := False, callback := Function\<rparr>)))"
      below "[Scroll below, Resize visible]"]
  by (simp add: sample_defs code_defs transition_def)

end
